theory Spec2Isabelle
  imports Complex_Main "HOL-Library.Log_Nat" "HOL-Library.AList"
begin

section \<open>JavaScript numbers\<close>

text \<open>
  The program computes with JavaScript numbers. Integer quantities (game numbers, counts,
  loop counters, the arguments of the combinatorics functions) are modelled by \<open>nat\<close> and
  \<open>int\<close>; they stay far below \<open>2 ^ 53\<close>, where binary64 arithmetic on integers is exact.
  Fractional results are rationals. The combinatorics functions take the rounding that
  follows every floating-point operation as a parameter \<open>rnd\<close>: the identity gives exact
  arithmetic, \<open>fl\<close> gives IEEE 754 binary64 (round to nearest, ties to even).
\<close>

definition pow2 :: "int \<Rightarrow> rat" where
  "pow2 e = (if 0 \<le> e then 2 ^ nat e else 1 / 2 ^ nat (- e))"

text \<open>\<open>ilog2 x\<close> is the binary exponent of a positive rational: \<open>2 ^ ilog2 x \<le> x < 2 ^ (ilog2 x + 1)\<close>.\<close>

definition ilog2 :: "rat \<Rightarrow> int" where
  "ilog2 x = (let (a, b) = quotient_of x; k = bitlen a - bitlen b
              in if pow2 k \<le> x then k else k - 1)"

definition round_half_even :: "rat \<Rightarrow> int" where
  "round_half_even y = (let n = \<lfloor>y\<rfloor>; d = y - of_int n
     in if d < 1 / 2 then n else if 1 / 2 < d then n + 1 else if even n then n else n + 1)"

text \<open>
  Rounding to binary64: 53 significant bits, gradual underflow below \<open>2 ^ - 1022\<close>.
  Overflow to \<open>Infinity\<close> is not modelled; no value computed below comes near \<open>2 ^ 1024\<close>.
\<close>

definition fl :: "rat \<Rightarrow> rat" where
  "fl x = (if x = 0 then 0
           else let e = max (ilog2 \<bar>x\<bar>) (- 1022); q = pow2 (e - 52)
                in sgn x * of_int (round_half_even (\<bar>x\<bar> / q)) * q)"

definition exact :: "rat \<Rightarrow> rat" where
  "exact x = x"

text \<open>\<open>Math.round\<close>: the integer nearest to the argument, halves upwards.\<close>

definition Math_round :: "rat \<Rightarrow> rat" where
  "Math_round x = of_int \<lfloor>x + 1 / 2\<rfloor>"

text \<open>
  \<open>Math.pow\<close> with a non-negative integer exponent. The exponents 0 and 1 return 1 and the
  base itself; other powers are rounded once.
\<close>

definition Math_pow :: "(rat \<Rightarrow> rat) \<Rightarrow> rat \<Rightarrow> nat \<Rightarrow> rat" where
  "Math_pow rnd x n = (if n = 0 then 1 else if n = 1 then x else rnd (x ^ n))"

section \<open>Combinatorics engine\<close>

subsection \<open>The payout calculator's functions\<close>

text \<open>
  The loop of \<open>combinations\<close>, shared by both versions of the function:
  \<^verbatim>\<open>for (let i = 1; i <= k; i++) { result *= (n - i + 1) / i; }\<close>
\<close>

function comb_loop :: "(rat \<Rightarrow> rat) \<Rightarrow> int \<Rightarrow> int \<Rightarrow> int \<Rightarrow> rat \<Rightarrow> rat" where
  "comb_loop rnd n k i result =
     (if i \<le> k
      then comb_loop rnd n k (i + 1) (rnd (result * rnd (of_int (n - i + 1) / of_int i)))
      else result)"
  by pat_completeness auto
termination
  by (relation "measure (\<lambda>(rnd, n, k, i, result). nat (k - i + 1))") auto

declare comb_loop.simps [simp del]

text \<open>
  \<open>combinations\<close>, the function nested in \<open>probabilityOfHitting\<close>: no test for a negative
  \<open>k\<close>, no final rounding.
\<close>

definition combinations :: "(rat \<Rightarrow> rat) \<Rightarrow> int \<Rightarrow> int \<Rightarrow> rat" where
  "combinations rnd n k =
     (if k > n then 0
      else if k = 0 \<or> k = n then 1
      else comb_loop rnd n k 1 1)"

definition probabilityOfHitting :: "(rat \<Rightarrow> rat) \<Rightarrow> int \<Rightarrow> int \<Rightarrow> rat" where
  "probabilityOfHitting rnd matches spotCount =
     (let totalNumbers = 80;
          numbersDrawn = 20;
          numerator = rnd (combinations rnd numbersDrawn matches *
                           combinations rnd (totalNumbers - numbersDrawn) (spotCount - matches));
          denominator = combinations rnd totalNumbers spotCount
      in if denominator = 0 then 0
         else if matches > spotCount then 0
         else if matches > numbersDrawn then 0
         else if spotCount > totalNumbers then 0
         else rnd (numerator / denominator))"

definition probabilityAcrossGames :: "(rat \<Rightarrow> rat) \<Rightarrow> int \<Rightarrow> int \<Rightarrow> nat \<Rightarrow> rat" where
  "probabilityAcrossGames rnd matches spotCount numGames =
     (let singleGameProb = probabilityOfHitting rnd matches spotCount;
          probNone = Math_pow rnd (rnd (1 - singleGameProb)) numGames
      in rnd (1 - probNone))"

subsection \<open>The utility module's functions\<close>

text \<open>
  The module of mathematical utilities has its own \<open>combinations\<close> and
  \<open>probabilityOfHitting\<close>, with a test for negative \<open>k\<close>, a final \<open>Math.round\<close> and the
  input validation first.
\<close>

definition MathUtils_combinations :: "(rat \<Rightarrow> rat) \<Rightarrow> int \<Rightarrow> int \<Rightarrow> rat" where
  "MathUtils_combinations rnd n k =
     (if k > n then 0
      else if k = 0 \<or> k = n then 1
      else if k < 0 then 0
      else Math_round (comb_loop rnd n k 1 1))"

definition MathUtils_probabilityOfHitting ::
  "(rat \<Rightarrow> rat) \<Rightarrow> int \<Rightarrow> int \<Rightarrow> int \<Rightarrow> int \<Rightarrow> rat" where
  "MathUtils_probabilityOfHitting rnd matches spotCount totalNumbers numbersDrawn =
     (if matches > spotCount then 0
      else if matches > numbersDrawn then 0
      else if spotCount > totalNumbers then 0
      else if spotCount - matches > totalNumbers - numbersDrawn then 0
      else let numerator = rnd (MathUtils_combinations rnd numbersDrawn matches *
                                MathUtils_combinations rnd (totalNumbers - numbersDrawn)
                                  (spotCount - matches));
               denominator = MathUtils_combinations rnd totalNumbers spotCount
           in if denominator = 0 then 0 else rnd (numerator / denominator))"

section \<open>Numbers that may be \<open>NaN\<close> or infinite\<close>

text \<open>
  The analyzers divide by values that can be zero or \<open>undefined\<close>, so their numbers are
  rationals extended by \<open>NaN\<close> and the two infinities. Arithmetic on the finite values is
  exact (binary64 rounding is not modelled for the analyzers, and the two zeros are one).
\<close>

datatype jsnum = Fin rat | NaN | PosInf | NegInf

definition num :: "nat \<Rightarrow> jsnum" where
  "num n = Fin (of_nat n)"

fun jneg :: "jsnum \<Rightarrow> jsnum" where
  "jneg (Fin a) = Fin (- a)"
| "jneg NaN = NaN"
| "jneg PosInf = NegInf"
| "jneg NegInf = PosInf"

fun jadd :: "jsnum \<Rightarrow> jsnum \<Rightarrow> jsnum" where
  "jadd (Fin a) (Fin b) = Fin (a + b)"
| "jadd NaN y = NaN"
| "jadd x NaN = NaN"
| "jadd PosInf NegInf = NaN"
| "jadd NegInf PosInf = NaN"
| "jadd PosInf y = PosInf"
| "jadd x PosInf = PosInf"
| "jadd NegInf y = NegInf"
| "jadd x NegInf = NegInf"

definition jsub :: "jsnum \<Rightarrow> jsnum \<Rightarrow> jsnum" where
  "jsub x y = jadd x (jneg y)"

definition signed_inf :: "bool \<Rightarrow> jsnum" where
  "signed_inf positive = (if positive then PosInf else NegInf)"

fun jmul :: "jsnum \<Rightarrow> jsnum \<Rightarrow> jsnum" where
  "jmul (Fin a) (Fin b) = Fin (a * b)"
| "jmul NaN y = NaN"
| "jmul x NaN = NaN"
| "jmul (Fin a) PosInf = (if a = 0 then NaN else signed_inf (0 < a))"
| "jmul (Fin a) NegInf = (if a = 0 then NaN else signed_inf (a < 0))"
| "jmul PosInf (Fin b) = (if b = 0 then NaN else signed_inf (0 < b))"
| "jmul NegInf (Fin b) = (if b = 0 then NaN else signed_inf (b < 0))"
| "jmul PosInf PosInf = PosInf"
| "jmul NegInf NegInf = PosInf"
| "jmul PosInf NegInf = NegInf"
| "jmul NegInf PosInf = NegInf"

fun jdiv :: "jsnum \<Rightarrow> jsnum \<Rightarrow> jsnum" where
  "jdiv (Fin a) (Fin b) =
     (if b = 0 then (if a = 0 then NaN else signed_inf (0 < a)) else Fin (a / b))"
| "jdiv NaN y = NaN"
| "jdiv x NaN = NaN"
| "jdiv (Fin a) PosInf = Fin 0"
| "jdiv (Fin a) NegInf = Fin 0"
| "jdiv PosInf (Fin b) = signed_inf (0 \<le> b)"
| "jdiv NegInf (Fin b) = signed_inf (b < 0)"
| "jdiv PosInf y = NaN"
| "jdiv NegInf y = NaN"

text \<open>\<open>v > 0\<close>, as the sort reads a comparator's result.\<close>

fun jpos :: "jsnum \<Rightarrow> bool" where
  "jpos (Fin a) = (0 < a)"
| "jpos PosInf = True"
| "jpos NaN = False"
| "jpos NegInf = False"

text \<open>\<open>x || 0\<close> on an optional number: \<open>undefined\<close>, \<open>0\<close> and \<open>NaN\<close> are falsy.\<close>

fun or_zero :: "jsnum option \<Rightarrow> jsnum" where
  "or_zero None = Fin 0"
| "or_zero (Some NaN) = Fin 0"
| "or_zero (Some v) = v"

text \<open>The same on counts, which are never \<open>NaN\<close>.\<close>

fun nat_or_zero :: "nat option \<Rightarrow> nat" where
  "nat_or_zero None = 0"
| "nat_or_zero (Some c) = c"

text \<open>A read that may be \<open>undefined\<close>, used as a number: \<open>undefined\<close> converts to \<open>NaN\<close>.\<close>

fun to_number :: "nat option \<Rightarrow> jsnum" where
  "to_number None = NaN"
| "to_number (Some g) = num g"

text \<open>\<open>Math.max(...values)\<close>: \<open>-Infinity\<close> for no argument, \<open>NaN\<close> as soon as one is.\<close>

fun jmax :: "jsnum \<Rightarrow> jsnum \<Rightarrow> jsnum" where
  "jmax NaN y = NaN"
| "jmax x NaN = NaN"
| "jmax PosInf y = PosInf"
| "jmax x PosInf = PosInf"
| "jmax NegInf y = y"
| "jmax x NegInf = x"
| "jmax (Fin a) (Fin b) = Fin (max a b)"

definition Math_max :: "jsnum list \<Rightarrow> jsnum" where
  "Math_max values = fold (\<lambda>v m. jmax m v) values NegInf"

text \<open>
  \<open>x.toFixed(digits)\<close>, as the number its decimal string denotes: the nearest multiple of
  \<open>10 ^ - digits\<close>, the larger one on a tie; \<open>NaN\<close> and the infinities print as themselves.
\<close>

fun toFixed :: "nat \<Rightarrow> jsnum \<Rightarrow> jsnum" where
  "toFixed digits (Fin x) = Fin (of_int \<lfloor>x * 10 ^ digits + 1 / 2\<rfloor> / 10 ^ digits)"
| "toFixed digits v = v"

section \<open>Arrays, Maps and objects\<close>

text \<open>
  \<open>Array.prototype.sort\<close> with a comparator is stable (ECMAScript 2019): an element moves
  behind another only if the comparator returns a positive number for the pair. For a
  comparator that returns \<open>NaN\<close> the language leaves the order open; the insertion sort
  below is one of the orders it allows.
\<close>

fun insert_by :: "('a \<Rightarrow> 'a \<Rightarrow> jsnum) \<Rightarrow> 'a \<Rightarrow> 'a list \<Rightarrow> 'a list" where
  "insert_by cmp x [] = [x]"
| "insert_by cmp x (y # ys) = (if jpos (cmp x y) then y # insert_by cmp x ys else x # y # ys)"

definition Array_sort :: "('a \<Rightarrow> 'a \<Rightarrow> jsnum) \<Rightarrow> 'a list \<Rightarrow> 'a list" where
  "Array_sort cmp xs = foldr (insert_by cmp) xs []"

text \<open>\<open>array.find(pred)\<close>: the first element that satisfies \<open>pred\<close>, or \<open>undefined\<close>.\<close>

definition Array_find :: "('a \<Rightarrow> bool) \<Rightarrow> 'a list \<Rightarrow> 'a option" where
  "Array_find pred xs = List.find pred xs"

text \<open>
  A \<open>Map\<close> is the list of its entries in insertion order: \<open>set\<close> on a present key replaces
  the value in place, on a new key it appends.
\<close>

definition Map_get :: "('k \<times> 'v) list \<Rightarrow> 'k \<Rightarrow> 'v option" where
  "Map_get m k = map_of m k"

definition Map_set :: "'k \<Rightarrow> 'v \<Rightarrow> ('k \<times> 'v) list \<Rightarrow> ('k \<times> 'v) list" where
  "Map_set k v m = AList.update k v m"

text \<open>\<open>counts.set(key, (counts.get(key) || 0) + amount)\<close>\<close>

definition Map_add :: "'k \<Rightarrow> nat \<Rightarrow> ('k \<times> nat) list \<Rightarrow> ('k \<times> nat) list" where
  "Map_add key amount counts = Map_set key (nat_or_zero (Map_get counts key) + amount) counts"

text \<open>
  An object whose keys are integer indices (game numbers, sequence ids) is the list of its
  properties as written; the engine enumerates them in ascending order of the key.
\<close>

definition Object_entries :: "(nat \<times> 'v) list \<Rightarrow> (nat \<times> 'v) list" where
  "Object_entries ob = sort_key fst ob"

definition Object_keys :: "(nat \<times> 'v) list \<Rightarrow> nat list" where
  "Object_keys ob = map fst (Object_entries ob)"

definition Object_values :: "(nat \<times> 'v) list \<Rightarrow> 'v list" where
  "Object_values ob = map snd (Object_entries ob)"

text \<open>
  A property key in general is an integer index or another string (a date). The engine
  enumerates the integer indices first, ascending, then the other keys as inserted.
\<close>

datatype pkey = Idx nat | Name string

fun is_index :: "pkey \<Rightarrow> bool" where
  "is_index (Idx n) = True"
| "is_index (Name s) = False"

fun index_of :: "pkey \<Rightarrow> nat" where
  "index_of (Idx n) = n"
| "index_of (Name s) = 0"

definition own_entries :: "(pkey \<times> 'v) list \<Rightarrow> (pkey \<times> 'v) list" where
  "own_entries ob =
     sort_key (\<lambda>p. index_of (fst p)) (filter (\<lambda>p. is_index (fst p)) ob) @
     filter (\<lambda>p. \<not> is_index (fst p)) ob"

datatype error = TypeError

section \<open>Draw histories\<close>

text \<open>
  A draw is the array of its numbers, here JavaScript numbers with non-negative integer
  values. A history is the object that maps a game number (or sequence id) to its draw;
  each of its values is an array, so the tests \<open>Array.isArray(gameData)\<close> always succeed.
  \<open>locationsData[location]\<close> is \<open>None\<close> when the file could not be read.
\<close>

type_synonym draw = "nat list"
type_synonym history = "(nat \<times> draw) list"

subsection \<open>processKenoData\<close>

record 'v flat_game =
  kenoGameNumber :: nat
  kenoGameStats :: 'v

text \<open>
  \<^verbatim>\<open>Object.keys(jsonData).reverse().forEach(date => { const games = jsonData[date];
    Object.keys(games).forEach(gameNumber => { flattenedData.push({...}); }); });\<close>
  Each key is enumerated with the value the object holds for it. The dates are property
  keys of any kind; the game numbers are integer indices, which \<open>parseInt\<close> reads back.
\<close>

definition flattenedData :: "(pkey \<times> (nat \<times> 'v) list) list \<Rightarrow> 'v flat_game list" where
  "flattenedData jsonData =
     concat (map (\<lambda>(date, games).
                    map (\<lambda>(gameNumber, stats).
                           \<lparr>kenoGameNumber = gameNumber, kenoGameStats = stats\<rparr>)
                        (Object_entries games))
                 (rev (own_entries jsonData)))"

definition processKenoData ::
  "(pkey \<times> (nat \<times> 'v) list) list option \<Rightarrow> (nat \<times> 'v) list option" where
  "processKenoData jsonData =
     (case jsonData of
        None \<Rightarrow> None
      | Some d \<Rightarrow>
          Some (map (\<lambda>(index, game). (index + 1, kenoGameStats game))
                    (enumerate 0 (flattenedData d))))"

subsection \<open>getNumberCounts\<close>

record NumberStat =
  number :: nat
  count :: nat

definition numberCounts :: "history \<Rightarrow> (nat \<times> nat) list" where
  "numberCounts locationData =
     fold (\<lambda>gameData counts. fold (\<lambda>n counts. Map_add n 1 counts) gameData counts)
          (Object_values locationData) []"

definition getNumberCounts :: "history option \<Rightarrow> NumberStat list option" where
  "getNumberCounts locationData =
     (case locationData of
        None \<Rightarrow> None
      | Some d \<Rightarrow>
          Some (map (\<lambda>(n, c). \<lparr>number = n, count = c\<rparr>)
                    (Array_sort (\<lambda>a b. jsub (num (snd b)) (num (snd a))) (numberCounts d))))"

subsection \<open>The analyzers behind the prediction\<close>

text \<open>
  \<^verbatim>\<open>Object.entries(locationData).sort((a, b) => Number(b[0]) - Number(a[0]))\<close>:
  the games by descending game number, the most recent first.
\<close>

definition games_descending :: "history \<Rightarrow> (nat \<times> draw) list" where
  "games_descending locationData =
     Array_sort (\<lambda>a b. jsub (num (fst b)) (num (fst a))) (Object_entries locationData)"

record Trend =
  trend_number :: nat
  recentFrequency :: nat
  momentum :: jsnum

definition analyzeRecentTrends :: "history option \<Rightarrow> nat \<Rightarrow> Trend list option" where
  "analyzeRecentTrends locationData windowSize =
     (case locationData of
        None \<Rightarrow> None
      | Some d \<Rightarrow>
          let games = concat (map snd (take windowSize (games_descending d)));
              recentCounts = fold (\<lambda>n counts. Map_add n 1 counts) games []
          in Some (Array_sort (\<lambda>a b. jsub (momentum b) (momentum a))
                     (map (\<lambda>(number, count).
                             \<lparr>trend_number = number, recentFrequency = count,
                              momentum = jdiv (num count) (num windowSize)\<rparr>)
                          recentCounts)))"

record GapRecord =
  gap_number :: nat
  currentGap :: "nat option"
  averageGap :: jsnum
  gapRatio :: jsnum

text \<open>
  The state of the scan: \<open>gapAnalysis\<close> maps a number to the gaps recorded for it (a gap
  read for a number that \<open>currentGaps\<close> does not hold is \<open>undefined\<close>), \<open>currentGaps\<close> maps
  a number to its running gap.
\<close>

type_synonym gap_state = "(nat \<times> nat option list) list \<times> (nat \<times> nat) list"

text \<open>
  \<^verbatim>\<open>const gap = currentGaps.get(num);
  gapAnalysis.set(num, (gapAnalysis.get(num) || []).concat(gap));
  currentGaps.set(num, 0);\<close>
\<close>

definition record_gap :: "nat \<Rightarrow> gap_state \<Rightarrow> gap_state" where
  "record_gap n st =
     (case st of (gapAnalysis, currentGaps) \<Rightarrow>
        let gap = Map_get currentGaps n
        in (Map_set n ((case Map_get gapAnalysis n of None \<Rightarrow> [] | Some gaps \<Rightarrow> gaps) @ [gap])
              gapAnalysis,
            Map_set n 0 currentGaps))"

text \<open>One game: every running gap grows by one, then the game's numbers are recorded.\<close>

definition scan_game :: "draw \<Rightarrow> gap_state \<Rightarrow> gap_state" where
  "scan_game numbers st =
     (case st of (gapAnalysis, currentGaps) \<Rightarrow>
        fold record_gap numbers
          (gapAnalysis, map (\<lambda>(number, gap). (number, gap + 1)) currentGaps))"

definition initial_gaps :: "(nat \<times> nat) list" where
  "initial_gaps = map (\<lambda>i. (i, 0)) [1..<81]"

definition scan_games :: "(nat \<times> draw) list \<Rightarrow> gap_state" where
  "scan_games games = fold (\<lambda>(key, numbers) st. scan_game numbers st) games ([], initial_gaps)"

definition gap_record :: "(nat \<times> nat) list \<Rightarrow> nat \<times> nat option list \<Rightarrow> GapRecord" where
  "gap_record currentGaps entry =
     (case entry of (n, gaps) \<Rightarrow>
        let avgGap = jdiv (fold (\<lambda>gap sum. jadd sum (to_number gap)) gaps (Fin 0))
                          (num (length gaps))
        in \<lparr>gap_number = n,
            currentGap = Map_get currentGaps n,
            averageGap = avgGap,
            gapRatio = jdiv (to_number (Map_get currentGaps n)) avgGap\<rparr>)"

definition analyzeNumberGaps :: "history option \<Rightarrow> GapRecord list option" where
  "analyzeNumberGaps locationData =
     (case locationData of
        None \<Rightarrow> None
      | Some d \<Rightarrow>
          (case scan_games (games_descending d) of (gapAnalysis, currentGaps) \<Rightarrow>
             Some (Array_sort (\<lambda>a b. jsub (gapRatio b) (gapRatio a))
                     (map (gap_record currentGaps) gapAnalysis))))"

record HotCold =
  hotCold_number :: nat
  weightedScore :: nat
  recentPerformance :: rat

definition analyzeHotColdPatterns :: "history option \<Rightarrow> nat \<Rightarrow> HotCold list option" where
  "analyzeHotColdPatterns locationData recentWeight =
     (case locationData of
        None \<Rightarrow> None
      | Some d \<Rightarrow>
          let games = games_descending d;
              recentGames = take 20 games;
              olderGames = drop 20 games;
              recentScores = fold (\<lambda>(key, numbers) scores.
                                     fold (\<lambda>n scores. Map_add n recentWeight scores) numbers scores)
                                  recentGames [];
              numberAnalysis = fold (\<lambda>(key, numbers) scores.
                                       fold (\<lambda>n scores. Map_add n 1 scores) numbers scores)
                                    olderGames recentScores
          in Some (Array_sort (\<lambda>a b. jsub (num (weightedScore b)) (num (weightedScore a)))
                     (map (\<lambda>(number, score).
                             \<lparr>hotCold_number = number, weightedScore = score,
                              recentPerformance =
                                of_nat (length (filter (\<lambda>(key, nums). number \<in> set nums)
                                                  recentGames)) / 20\<rparr>)
                          numberAnalysis)))"

subsection \<open>generatePredictions\<close>

record Prediction =
  pred_number :: nat
  score :: jsnum
  confidence :: jsnum
  recentTrend :: jsnum
  gapAnalysis :: jsnum
  hotColdScore :: jsnum

text \<open>
  \<^verbatim>\<open>const max = Math.max(...array.map(item => item[scoreKey]));
  return array.map(item => ({ number: item.number, score: item[scoreKey] / max }));\<close>
  The array is given as the pairs of \<open>item.number\<close> and \<open>item[scoreKey]\<close>.
\<close>

definition normalizeScores :: "(nat \<times> jsnum) list \<Rightarrow> (nat \<times> jsnum) list" where
  "normalizeScores array =
     (let m = Math_max (map snd array) in map (\<lambda>(number, v). (number, jdiv v m)) array)"

text \<open>
  \<^verbatim>\<open>data.forEach(({ number, score }) => {
    combinedScores.set(number, (combinedScores.get(number) || 0) + score * weight); });\<close>
\<close>

definition add_scores ::
  "(nat \<times> jsnum) list \<Rightarrow> rat \<Rightarrow> (nat \<times> jsnum) list \<Rightarrow> (nat \<times> jsnum) list" where
  "add_scores data weight combinedScores =
     fold (\<lambda>(number, s) combined.
             Map_set number (jadd (or_zero (Map_get combined number)) (jmul s (Fin weight)))
               combined)
          data combinedScores"

definition combinedScores ::
  "Trend list \<Rightarrow> GapRecord list \<Rightarrow> HotCold list \<Rightarrow> (nat \<times> jsnum) list" where
  "combinedScores recentTrends gaps hotCold =
     (let normalizedTrends = normalizeScores (map (\<lambda>t. (trend_number t, momentum t)) recentTrends);
          normalizedGaps = normalizeScores (map (\<lambda>g. (gap_number g, gapRatio g)) gaps);
          normalizedHotCold =
            normalizeScores (map (\<lambda>h. (hotCold_number h, num (weightedScore h))) hotCold)
      in add_scores normalizedHotCold (3 / 10)
           (add_scores normalizedGaps (3 / 10)
              (add_scores normalizedTrends (2 / 5) [])))"

definition generatePredictions :: "history option \<Rightarrow> error + Prediction list" where
  "generatePredictions locationData =
     (case (analyzeRecentTrends locationData 10, analyzeNumberGaps locationData,
            analyzeHotColdPatterns locationData 2) of
        (Some recentTrends, Some gaps, Some hotCold) \<Rightarrow>
          Inr (take 10
                 (Array_sort (\<lambda>a b. jsub (score b) (score a))
                    (map (\<lambda>(number, combined).
                            \<lparr>pred_number = number,
                             score = toFixed 3 combined,
                             confidence = toFixed 1 (jmul combined (Fin 100)),
                             recentTrend =
                               or_zero (map_option momentum
                                 (Array_find (\<lambda>t. trend_number t = number) recentTrends)),
                             gapAnalysis =
                               or_zero (map_option gapRatio
                                 (Array_find (\<lambda>g. gap_number g = number) gaps)),
                             hotColdScore =
                               or_zero (map_option (\<lambda>h. num (weightedScore h))
                                 (Array_find (\<lambda>h. hotCold_number h = number) hotCold))\<rparr>)
                         (combinedScores recentTrends gaps hotCold))))
      | _ \<Rightarrow> Inl TypeError)"

subsection \<open>analyzeNumberCombinations\<close>


record CombinationRecord =
  numbers :: "nat list"
  occurrences :: nat
  combo_confidence :: jsnum
  avgIndividualFrequency :: jsnum










text \<open>
  The elements of a list in the order of their first occurrence: the order in which a
  counting Map filled from the list holds its keys.
\<close>

definition first_occurrences :: "'a list \<Rightarrow> 'a list" where
  "first_occurrences xs = rev (remdups (rev xs))"

section \<open>Properties of the combinatorics engine\<close>

text \<open>
  C2 (\<open>nChooseK\<close> returns 0 if \<open>k > n\<close> or \<open>k < 0\<close>, 1 if \<open>k = 0\<close> or \<open>k = n\<close>, and the rounded
  running product otherwise). The nested \<open>combinations\<close> has no test for \<open>k < 0\<close>: for
  \<open>n = 5\<close>, \<open>k = - 1\<close> neither early return applies, the loop body never runs and the
  function returns its initial \<open>result = 1\<close>, whatever the arithmetic. The utility module's
  version returns 0 there.
\<close>

theorem combinations_negative_k:
  "combinations fl 5 (- 1) = 1 \<and> combinations exact 5 (- 1) = 1 \<and>
   MathUtils_combinations fl 5 (- 1) = 0"
  by (simp add: combinations_def MathUtils_combinations_def comb_loop.simps)

text \<open>
  C3 (\<open>hypergeometric\<close> returns a probability in \<open>[0, 1]\<close> for every integer \<open>matches\<close> and
  \<open>spotCount\<close>). For \<open>matches = - 1\<close>, \<open>spotCount = 5\<close> no guard of \<open>probabilityOfHitting\<close>
  applies and the nested \<open>combinations\<close> returns 1 for \<open>k = - 1\<close>, so the result is
  \<open>C(60, 6) / C(80, 5)\<close>, which is above 2. The utility module's version returns 0.
\<close>

theorem probabilityOfHitting_negative_matches:
  "1 < probabilityOfHitting fl (- 1) 5 \<and> probabilityOfHitting exact (- 1) 5 = 8555 / 4108
   \<and> MathUtils_probabilityOfHitting fl (- 1) 5 80 20 = 0"
  by code_simp

section \<open>The combinatorics engine in exact arithmetic\<close>

lemma gbinomial_step:
  "(a gchoose j) * ((a - of_nat j) / of_nat (Suc j)) = (a gchoose Suc j)" for a :: rat
proof -
  have "of_nat (Suc j) * (a gchoose Suc j) = (a - of_nat j) * (a gchoose j)"
    using gbinomial_mult_1 [of a j] by (simp add: algebra_simps)
  then have "(a gchoose Suc j) = (a - of_nat j) * (a gchoose j) / of_nat (Suc j)"
    by (simp add: field_simps del: of_nat_Suc)
  then show ?thesis by (simp add: mult.commute)
qed

text \<open>The loop multiplies its way from \<open>n\<close> over \<open>i - 1\<close> to \<open>n\<close> over \<open>k\<close>.\<close>

lemma comb_loop_exact:
  "1 \<le> i \<Longrightarrow> i \<le> k + 1 \<Longrightarrow>
   comb_loop exact n k i (of_int n gchoose nat (i - 1)) = (of_int n gchoose nat k)"
proof (induction "nat (k + 1 - i)" arbitrary: i)
  case 0
  then have "i = k + 1" by simp
  then show ?case by (simp add: comb_loop.simps)
next
  case (Suc d)
  then have i: "i \<le> k" by simp
  from Suc.prems have j: "nat i = Suc (nat (i - 1))" by simp
  have "(of_int n gchoose nat (i - 1)) * (of_int (n - i + 1) / of_int i)
      = (of_int n gchoose nat i :: rat)"
  proof -
    have "rat_of_int (n - i + 1) = of_int n - of_nat (nat (i - 1))"
      using Suc.prems by simp
    moreover have "rat_of_int i = of_nat (Suc (nat (i - 1)))"
      using Suc.prems by (simp del: of_nat_Suc add: j [symmetric])
    ultimately show ?thesis
      by (simp only: gbinomial_step j)
  qed
  moreover have "comb_loop exact n k (i + 1) (of_int n gchoose nat (i + 1 - 1))
      = (of_int n gchoose nat k)"
    using Suc.hyps(2) Suc.prems i by (intro Suc.hyps(1)) simp_all
  ultimately show ?case
    using i by (subst comb_loop.simps) (simp add: exact_def)
qed

lemma comb_loop_exact_start: "0 \<le> k \<Longrightarrow> comb_loop exact n k 1 1 = (of_int n gchoose nat k)"
  using comb_loop_exact [of 1 k n] by simp

lemma gchoose_nat: "0 \<le> n \<Longrightarrow> (rat_of_int n gchoose k) = of_nat (nat n choose k)"
  using binomial_gbinomial [of "nat n" k, where ?'a = rat] by simp

text \<open>For \<open>0 \<le> k\<close> and \<open>0 \<le> n\<close> the nested function returns the binomial coefficient.\<close>

lemma combinations_exact:
  assumes "0 \<le> k" "0 \<le> n"
  shows "combinations exact n k = of_nat (nat n choose nat k)"
proof -
  consider "n < k" | "k = 0" | "k = n" | "0 < k" "k < n" using assms by linarith
  then show ?thesis
  proof cases
    case 1
    then show ?thesis using assms by (simp add: combinations_def binomial_eq_0)
  next
    case 2
    then show ?thesis using assms by (simp add: combinations_def)
  next
    case 3
    then show ?thesis using assms by (simp add: combinations_def)
  next
    case 4
    then show ?thesis
      using assms by (simp add: combinations_def comb_loop_exact_start gchoose_nat)
  qed
qed

lemma Math_round_of_nat: "Math_round (of_nat c) = of_nat c"
proof -
  have "\<lfloor>rat_of_nat c + 1 / 2\<rfloor> = int c"
    by (rule floor_unique) simp_all
  then show ?thesis by (simp only: Math_round_def of_int_of_nat_eq)
qed

lemma MathUtils_combinations_exact:
  assumes "0 \<le> n"
  shows "MathUtils_combinations exact n k = (if k < 0 then 0 else of_nat (nat n choose nat k))"
proof -
  consider "k < 0" | "n < k" "0 \<le> k" | "k = 0" | "k = n" | "0 < k" "k < n"
    using assms by linarith
  then show ?thesis
  proof cases
    case 1
    then show ?thesis using assms by (simp add: MathUtils_combinations_def)
  next
    case 2
    then show ?thesis using assms by (simp add: MathUtils_combinations_def binomial_eq_0)
  next
    case 3
    then show ?thesis using assms by (simp add: MathUtils_combinations_def)
  next
    case 4
    then show ?thesis using assms by (simp add: MathUtils_combinations_def)
  next
    case 5
    then show ?thesis
      using assms
      by (simp add: MathUtils_combinations_def comb_loop_exact_start gchoose_nat
          Math_round_of_nat)
  qed
qed

lemma hypergeometric_le_one:
  "(a choose j) * (b choose (r - j)) \<le> (a + b) choose r" if "j \<le> r"
proof -
  have "(a choose j) * (b choose (r - j)) \<le> (\<Sum>k\<le>r. (a choose k) * (b choose (r - k)))"
    using that by (intro member_le_sum [of j "{..r}" "\<lambda>k. (a choose k) * (b choose (r - k))"]) simp_all
  then show ?thesis by (simp only: vandermonde)
qed

lemma hypergeometric_ratio:
  assumes "j \<le> r"
  shows "0 \<le> rat_of_nat ((a choose j) * (b choose (r - j))) / of_nat ((a + b) choose r)
       \<and> rat_of_nat ((a choose j) * (b choose (r - j))) / of_nat ((a + b) choose r) \<le> 1"
proof (cases "(a + b) choose r = 0")
  case True
  then have "rat_of_nat ((a + b) choose r) = 0" by (simp only: of_nat_0)
  then show ?thesis by (simp only: div_by_0) simp
next
  case False
  define N where "N = rat_of_nat ((a + b) choose r)"
  define X where "X = rat_of_nat ((a choose j) * (b choose (r - j)))"
  from False have "0 < (a + b) choose r" by (simp only: neq0_conv)
  then have N: "0 < N" unfolding N_def by (simp only: of_nat_0_less_iff)
  have "X \<le> N"
    unfolding X_def N_def using hypergeometric_le_one [OF assms, of a b]
    by (simp only: of_nat_le_iff)
  moreover have "0 \<le> X" unfolding X_def by (rule of_nat_0_le_iff)
  ultimately have "0 \<le> X / N \<and> X / N \<le> 1"
    using N by (simp add: divide_le_eq_1_pos)
  then show ?thesis by (simp only: X_def N_def)
qed

text \<open>
  For non-negative \<open>matches\<close> the payout calculator's function returns a probability.
\<close>

lemma probabilityOfHitting_exact_range:
  assumes "0 \<le> m"
  shows "0 \<le> probabilityOfHitting exact m s \<and> probabilityOfHitting exact m s \<le> 1"
proof (cases "m \<le> s")
  case False
  then show ?thesis by (simp add: probabilityOfHitting_def Let_def)
next
  case True
  with assms have s: "0 \<le> s" "0 \<le> s - m" by simp_all
  have n: "nat (s - m) = nat s - nat m" "nat m \<le> nat s"
    using True assms by (auto simp: nat_diff_distrib)
  have c: "combinations exact 20 m = of_nat (20 choose nat m)"
    "combinations exact 60 (s - m) = of_nat (60 choose (nat s - nat m))"
    "combinations exact 80 s = of_nat (80 choose nat s)"
    using combinations_exact [of m 20] combinations_exact [of "s - m" 60]
      combinations_exact [of s 80] assms s n by simp_all
  have "probabilityOfHitting exact m s = 0
      \<or> probabilityOfHitting exact m s
          = rat_of_nat ((20 choose nat m) * (60 choose (nat s - nat m))) / of_nat ((20 + 60) choose nat s)"
    by (simp add: probabilityOfHitting_def Let_def c exact_def)
  with hypergeometric_ratio [OF n(2), of 20 60] show ?thesis by auto
qed

text \<open>In the four invalid cases the result is 0, if rounding leaves 0 alone.\<close>

lemma probabilityOfHitting_invalid:
  assumes "rnd 0 = 0" and "m > s \<or> m > 20 \<or> s > 80 \<or> s - m > 80 - 20"
  shows "probabilityOfHitting rnd m s = 0"
proof (cases "m > s \<or> m > 20 \<or> s > 80")
  case True
  then show ?thesis by (auto simp: probabilityOfHitting_def Let_def)
next
  case False
  with assms(2) have "s - m > 60" by simp
  then have "combinations rnd (80 - 20) (s - m) = 0" by (simp add: combinations_def)
  then show ?thesis by (simp add: probabilityOfHitting_def Let_def assms(1))
qed

text \<open>The utility module's function returns a probability for every pair of integers.\<close>

lemma MathUtils_probabilityOfHitting_exact_range:
  "0 \<le> MathUtils_probabilityOfHitting exact m s 80 20
   \<and> MathUtils_probabilityOfHitting exact m s 80 20 \<le> 1"
proof (cases "0 \<le> m \<and> m \<le> s")
  case False
  then have "m > s \<or> m < 0" by auto
  then show ?thesis
  proof
    assume "m > s"
    then show ?thesis by (simp add: MathUtils_probabilityOfHitting_def)
  next
    assume "m < 0"
    then have "MathUtils_combinations exact 20 m = 0"
      using MathUtils_combinations_exact [of 20 m] by simp
    then show ?thesis
      by (simp add: MathUtils_probabilityOfHitting_def Let_def exact_def)
  qed
next
  case True
  then have n: "nat (s - m) = nat s - nat m" "nat m \<le> nat s" "0 \<le> s" "0 \<le> s - m"
    by (auto simp: nat_diff_distrib)
  have c: "MathUtils_combinations exact 20 m = of_nat (20 choose nat m)"
    "MathUtils_combinations exact 60 (s - m) = of_nat (60 choose (nat s - nat m))"
    "MathUtils_combinations exact 80 s = of_nat (80 choose nat s)"
    using MathUtils_combinations_exact [of 20 m] MathUtils_combinations_exact [of 60 "s - m"]
      MathUtils_combinations_exact [of 80 s] True n by simp_all
  have "MathUtils_probabilityOfHitting exact m s 80 20 = 0
      \<or> MathUtils_probabilityOfHitting exact m s 80 20
          = rat_of_nat ((20 choose nat m) * (60 choose (nat s - nat m))) / of_nat ((20 + 60) choose nat s)"
    by (simp add: MathUtils_probabilityOfHitting_def Let_def c exact_def)
  with hypergeometric_ratio [OF n(2), of 20 60] show ?thesis by auto
qed

section \<open>Properties of binary64 rounding\<close>

lemma pow2_power_int: "pow2 e = 2 powi e"
  by (simp add: pow2_def power_int_def inverse_eq_divide power_one_over)

lemma pow2_pos: "0 < pow2 e"
  by (simp add: pow2_power_int)

lemma pow2_add: "pow2 (i + j) = pow2 i * pow2 j"
  by (simp add: pow2_power_int power_int_add)

lemma pow2_diff: "pow2 (i - j) = pow2 i / pow2 j"
  by (simp add: pow2_power_int power_int_diff)

lemma pow2_mono: "i \<le> j \<Longrightarrow> pow2 i \<le> pow2 j"
  by (simp add: pow2_power_int power_int_increasing)

lemma pow2_nat: "0 \<le> e \<Longrightarrow> pow2 e = 2 ^ nat e"
  by (simp add: pow2_def)

lemma pow2_ge_one: "0 \<le> e \<Longrightarrow> 1 \<le> pow2 e"
  by (simp add: pow2_def)

lemma ilog2_lower:
  assumes "0 < x"
  shows "pow2 (ilog2 x) \<le> x"
proof -
  obtain a b where q: "quotient_of x = (a, b)" by (cases "quotient_of x")
  then have b: "0 < b" by (rule quotient_of_denom_pos)
  from q have x: "x = of_int a / of_int b" by (rule quotient_of_div)
  with assms b have a: "0 < a" by (simp add: zero_less_divide_iff)
  let ?k = "bitlen a - bitlen b"
  show ?thesis
  proof (cases "pow2 ?k \<le> x")
    case True
    with q show ?thesis by (simp add: ilog2_def)
  next
    case False
    with q have i: "ilog2 x = ?k - 1" by (simp add: ilog2_def)
    from a have la: "1 \<le> bitlen a" by (simp add: bitlen_def floorlog_def)
    from b have lb: "1 \<le> bitlen b" by (simp add: bitlen_def floorlog_def)
    from bitlen_bounds [OF a] have "(2 :: int) ^ nat (bitlen a - 1) \<le> a" by simp
    then have "(of_int (2 ^ nat (bitlen a - 1)) :: rat) \<le> of_int a"
      by (simp only: of_int_le_iff)
    then have A: "pow2 (bitlen a - 1) \<le> of_int a"
      using la by (simp add: pow2_nat)
    from bitlen_bounds [OF b] have "b < (2 :: int) ^ nat (bitlen b)" by simp
    then have "(of_int b :: rat) < of_int (2 ^ nat (bitlen b))"
      by (simp only: of_int_less_iff)
    then have B: "of_int b < pow2 (bitlen b)"
      using lb by (simp add: pow2_nat)
    have "pow2 (?k - 1) = pow2 (bitlen a - 1) / pow2 (bitlen b)"
      using pow2_diff [of "bitlen a - 1" "bitlen b"] by (simp add: algebra_simps)
    also have "\<dots> \<le> of_int a / pow2 (bitlen b)"
      using A pow2_pos [of "bitlen b"] by (simp add: divide_right_mono)
    also have "\<dots> \<le> of_int a / of_int b"
      using B a b by (simp add: frac_le)
    finally show ?thesis using i x by simp
  qed
qed

lemma round_half_even_near: "\<bar>of_int (round_half_even y) - y\<bar> \<le> 1 / 2"
proof -
  have "of_int \<lfloor>y\<rfloor> \<le> y" "y < of_int \<lfloor>y\<rfloor> + 1" by linarith+
  then show ?thesis
    by (auto simp: round_half_even_def Let_def)
qed

lemma round_half_even_nonneg: "0 \<le> y \<Longrightarrow> 0 \<le> round_half_even y"
  by (auto simp: round_half_even_def Let_def)

lemma round_half_even_le_int: "y \<le> of_int n \<Longrightarrow> round_half_even y \<le> n"
proof -
  assume y: "y \<le> of_int n"
  then have f: "\<lfloor>y\<rfloor> \<le> n" by (simp add: floor_le_iff)
  show ?thesis
  proof (cases "\<lfloor>y\<rfloor> = n")
    case True
    with y have "y = of_int n" by linarith
    then show ?thesis by (simp add: round_half_even_def)
  next
    case False
    with f have "\<lfloor>y\<rfloor> + 1 \<le> n" by simp
    then show ?thesis by (auto simp: round_half_even_def Let_def)
  qed
qed

lemma fl_zero: "fl 0 = 0"
  by (simp add: fl_def)

lemma fl_one: "fl 1 = 1"
  by code_simp

lemma fl_below_one:
  assumes "0 < x" "x < 1"
  shows "0 \<le> fl x \<and> fl x \<le> 1 \<and> \<bar>fl x - x\<bar> \<le> 1 / 2 ^ 54"
proof -
  define e where "e = max (ilog2 x) (- 1022)"
  define q where "q = pow2 (e - 52)"
  define r where "r = round_half_even (x / q)"
  have flx: "fl x = of_int r * q"
    using assms by (simp add: fl_def Let_def e_def q_def r_def)
  have "pow2 (ilog2 x) < 1"
    using ilog2_lower [OF assms(1)] assms(2) by simp
  then have "ilog2 x < 0"
    using pow2_ge_one [of "ilog2 x"] by (cases "0 \<le> ilog2 x") auto
  then have e: "e \<le> - 1" by (simp add: e_def)
  have q0: "0 < q" by (simp add: q_def pow2_pos)
  have "q \<le> pow2 (- 53)"
    unfolding q_def using e by (intro pow2_mono) simp
  then have q53: "q \<le> 1 / 2 ^ 53" by (simp add: pow2_def)
  have r0: "0 \<le> r"
    unfolding r_def using assms q0 by (intro round_half_even_nonneg) simp
  have inv: "1 / q = of_int (2 ^ nat (52 - e))"
  proof -
    have "1 / q = pow2 (0 - (e - 52))"
      unfolding q_def by (simp only: pow2_diff) (simp add: pow2_def)
    also have "\<dots> = 2 ^ nat (52 - e)"
      using e by (simp add: pow2_def)
    finally show ?thesis by simp
  qed
  have "x / q \<le> 1 / q"
    using assms q0 by (simp add: divide_right_mono)
  then have "r \<le> 2 ^ nat (52 - e)"
    unfolding r_def inv by (rule round_half_even_le_int)
  then have "(of_int r :: rat) \<le> of_int (2 ^ nat (52 - e))"
    by (simp only: of_int_le_iff)
  then have "of_int r \<le> 1 / q" by (simp only: inv)
  then have le1: "of_int r * q \<le> 1"
    using q0 by (simp add: pos_le_divide_eq)
  have "\<bar>of_int r * q - x\<bar> = q * \<bar>of_int r - x / q\<bar>"
  proof -
    have "of_int r * q - x = q * (of_int r - x / q)"
      using q0 by (simp add: algebra_simps)
    then show ?thesis using q0 by (simp add: abs_mult)
  qed
  also have "\<dots> \<le> q * (1 / 2)"
    using round_half_even_near [of "x / q"] q0 unfolding r_def
    by (intro mult_left_mono) auto
  also have "\<dots> \<le> (1 / 2 ^ 53) * (1 / 2)"
    using q53 by (intro mult_right_mono) auto
  finally have "\<bar>of_int r * q - x\<bar> \<le> 1 / 2 ^ 54" by simp
  with r0 q0 le1 flx show ?thesis by simp
qed

lemma fl_unit_interval:
  assumes "0 \<le> x" "x \<le> 1"
  shows "0 \<le> fl x \<and> fl x \<le> 1 \<and> \<bar>fl x - x\<bar> \<le> 1 / 2 ^ 54"
proof -
  consider "x = 0" | "x = 1" | "0 < x" "x < 1" using assms by fastforce
  then show ?thesis
  proof cases
    case 1
    then show ?thesis by (simp add: fl_zero)
  next
    case 2
    then show ?thesis by (simp add: fl_one)
  next
    case 3
    then show ?thesis by (rule fl_below_one)
  qed
qed


section \<open>Properties of probabilityAcrossGames\<close>

lemma probabilityAcrossGames_one:
  "probabilityAcrossGames rnd m s 1 = rnd (1 - rnd (1 - probabilityOfHitting rnd m s))"
  by (simp add: probabilityAcrossGames_def Math_pow_def Let_def)

text \<open>
  C9, as the code has it. With \<open>numGames = 1\<close> the function returns \<open>1 - (1 - p)\<close> for the
  single-game probability \<open>p\<close>, each subtraction rounded to binary64. For \<open>p\<close> in \<open>[0, 1]\<close>
  the result is within \<open>2 ^ - 53\<close> of \<open>p\<close>; it is \<open>p\<close> itself in exact arithmetic.
\<close>

theorem probabilityAcrossGames_single_game:
  assumes "0 \<le> probabilityOfHitting fl m s" and "probabilityOfHitting fl m s \<le> 1"
  shows "\<bar>probabilityAcrossGames fl m s 1 - probabilityOfHitting fl m s\<bar> \<le> 1 / 2 ^ 53
       \<and> probabilityAcrossGames exact m s 1 = probabilityOfHitting exact m s"
proof -
  let ?p = "probabilityOfHitting fl m s"
  let ?y = "fl (1 - ?p)"
  from assms have "0 \<le> 1 - ?p" "1 - ?p \<le> 1" by simp_all
  then have y: "0 \<le> ?y" "?y \<le> 1" "\<bar>?y - (1 - ?p)\<bar> \<le> 1 / 2 ^ 54"
    using fl_unit_interval [of "1 - ?p"] by simp_all
  then have "0 \<le> 1 - ?y" "1 - ?y \<le> 1" by simp_all
  then have "\<bar>fl (1 - ?y) - (1 - ?y)\<bar> \<le> 1 / 2 ^ 54"
    using fl_unit_interval [of "1 - ?y"] by simp
  with y(3) have "\<bar>fl (1 - ?y) - ?p\<bar> \<le> 1 / 2 ^ 54 + 1 / 2 ^ 54" by linarith
  then have "\<bar>fl (1 - ?y) - ?p\<bar> \<le> 1 / 2 ^ 53" by simp
  moreover have "probabilityAcrossGames exact m s 1 = probabilityOfHitting exact m s"
    unfolding probabilityAcrossGames_one exact_def by simp
  ultimately show ?thesis by (simp only: probabilityAcrossGames_one) 
qed

lemma probabilityOfHitting_2_2: "probabilityOfHitting fl 2 2 = 4332576856710857 / 72057594037927936"
  by code_simp

theorem probabilityAcrossGames_single_game_witness:
  "0 \<le> probabilityOfHitting fl 2 2 \<and> probabilityOfHitting fl 2 2 \<le> 1
   \<and> \<bar>probabilityAcrossGames fl 2 2 1 - probabilityOfHitting fl 2 2\<bar> \<le> 1 / 2 ^ 53"
proof -
  have a: "0 \<le> probabilityOfHitting fl 2 2" by (simp add: probabilityOfHitting_2_2)
  have b: "probabilityOfHitting fl 2 2 \<le> 1" by (simp add: probabilityOfHitting_2_2)
  from probabilityAcrossGames_single_game [OF a b] a b show ?thesis by simp
qed

text \<open>
  Two matches on two spots: \<open>p = 190 / 3160\<close> rounds to an odd multiple of \<open>2 ^ - 56\<close>, which
  \<open>1 - p\<close> cannot keep; the result differs from \<open>p\<close> in the last place.
\<close>

theorem probabilityAcrossGames_rounding_counterexample:
  "probabilityAcrossGames fl 2 2 1 \<noteq> probabilityOfHitting fl 2 2"
  unfolding probabilityAcrossGames_one probabilityOfHitting_2_2 by code_simp

section \<open>Properties of arrays and objects\<close>

subsection \<open>Sorting\<close>

lemma set_insert_by: "set (insert_by cmp x ys) = insert x (set ys)"
  by (induction ys) auto

lemma set_Array_sort: "set (Array_sort cmp xs) = set xs"
  by (induction xs) (simp_all add: Array_sort_def set_insert_by)

lemma length_insert_by: "length (insert_by cmp x ys) = Suc (length ys)"
  by (induction ys) auto

lemma length_Array_sort: "length (Array_sort cmp xs) = length xs"
  by (induction xs) (simp_all add: Array_sort_def length_insert_by)



lemma jpos_difference: "jpos (jsub (num b) (num a)) = (a < b)"
  by (simp add: jsub_def num_def)

lemma insert_by_descending:
  "insert_by (\<lambda>a b. jsub (num (f b)) (num (f a))) x ys = insort_key (\<lambda>x. - int (f x)) x ys"
  by (induction ys) (auto simp: jpos_difference)

lemma Array_sort_descending:
  "Array_sort (\<lambda>a b. jsub (num (f b)) (num (f a))) xs = sort_key (\<lambda>x. - int (f x)) xs"
  by (induction xs) (simp_all add: Array_sort_def insert_by_descending)

lemma Array_sort_Nil_iff: "Array_sort cmp xs = [] \<longleftrightarrow> xs = []"
  by (metis length_Array_sort length_0_conv)

subsection \<open>Objects\<close>

lemma set_Object_entries: "set (Object_entries ob) = set ob"
  by (simp add: Object_entries_def)

lemma length_Object_entries: "length (Object_entries ob) = length ob"
  by (simp add: Object_entries_def)

lemma sorted_Object_keys: "sorted (Object_keys ob)"
  by (simp add: Object_keys_def Object_entries_def)

lemma sum_list_insort_key:
  "sum_list (map f (insort_key k x xs)) = f x + sum_list (map (f :: 'a \<Rightarrow> nat) xs)"
  by (induction xs) auto

lemma sum_list_sort_key: "sum_list (map f (sort_key k xs)) = sum_list (map (f :: 'a \<Rightarrow> nat) xs)"
  by (induction xs) (simp_all add: sum_list_insort_key)

lemma sum_list_filter_split:
  "sum_list (map f (filter P xs)) + sum_list (map f (filter (\<lambda>x. \<not> P x) xs)) = sum_list (map (f :: 'a \<Rightarrow> nat) xs)"
  by (induction xs) auto

lemma sum_list_own_entries: "sum_list (map f (own_entries ob)) = sum_list (map (f :: _ \<Rightarrow> nat) ob)"
  by (simp add: own_entries_def sum_list_sort_key sum_list_filter_split)

lemma own_entries_names: "\<forall>p \<in> set ob. \<not> is_index (fst p) \<Longrightarrow> own_entries ob = ob"
proof -
  assume a: "\<forall>p \<in> set ob. \<not> is_index (fst p)"
  then have "filter (\<lambda>p. is_index (fst p)) ob = []" by (induction ob) auto
  moreover from a have "filter (\<lambda>p. \<not> is_index (fst p)) ob = ob" by (induction ob) auto
  ultimately show ?thesis by (simp add: own_entries_def)
qed

section \<open>Properties of processKenoData\<close>

lemma length_flattenedData:
  "length (flattenedData jsonData) = sum_list (map (\<lambda>(date, games). length games) jsonData)"
proof -
  have "length (flattenedData jsonData)
      = sum_list (map (\<lambda>(date, games). length games) (own_entries jsonData))"
    by (simp add: flattenedData_def length_concat comp_def case_prod_unfold
        length_Object_entries rev_map [symmetric])
  then show ?thesis by (simp add: sum_list_own_entries)
qed

lemma stats_flattenedData:
  "map kenoGameStats (flattenedData jsonData)
     = concat (map (\<lambda>(date, games). Object_values games) (rev (own_entries jsonData)))"
  by (simp add: flattenedData_def map_concat comp_def case_prod_unfold Object_values_def)

lemma reindex_keys:
  "map fst (map (\<lambda>(index, game). (index + 1, f game)) (enumerate 0 xs)) = [1..<Suc (length xs)]"
proof -
  have "map fst (map (\<lambda>(index, game). (index + 1, f game)) (enumerate 0 xs))
      = map (Suc \<circ> fst) (enumerate 0 xs)"
    by (simp add: comp_def case_prod_unfold)
  also have "\<dots> = map Suc (map fst (enumerate 0 xs))"
    by (simp only: map_map)
  also have "\<dots> = [1..<Suc (length xs)]"
    by (simp add: map_Suc_upt)
  finally show ?thesis .
qed

lemma reindex_values:
  "map snd (map (\<lambda>(index, game). (index + 1, f game)) (enumerate 0 xs)) = map f xs"
proof -
  have "map snd (map (\<lambda>(index, game). (index + 1, f game)) (enumerate 0 xs))
      = map (f \<circ> snd) (enumerate 0 xs)"
    by (simp add: comp_def case_prod_unfold)
  also have "\<dots> = map f (map snd (enumerate 0 xs))"
    by (simp only: map_map)
  finally show ?thesis by simp
qed

text \<open>
  C1, as the code has it. \<open>processKenoData\<close> takes the dates in the reverse of the order in
  which the input object enumerates them (its own order when no date is an integer index)
  and, within a date, the games by ascending game number; it numbers the draws \<open>1..N\<close> in
  that order and copies each draw's numbers unchanged. Every game of every date gets a
  draw of its own, so the same game number on two dates gives two draws with two ids.
\<close>

theorem processKenoData_reindexes:
  "\<exists>out. processKenoData (Some jsonData) = Some out
     \<and> map fst out = [1..<Suc (length out)]
     \<and> map snd out = concat (map (\<lambda>(date, games). Object_values games) (rev (own_entries jsonData)))
     \<and> length out = sum_list (map (\<lambda>(date, games). length games) jsonData)
     \<and> (\<forall>(date, games) \<in> set jsonData.
           sorted (Object_keys games) \<and> set (Object_entries games) = set games)
     \<and> ((\<forall>p \<in> set jsonData. \<not> is_index (fst p)) \<longrightarrow> own_entries jsonData = jsonData)"
proof -
  let ?out = "map (\<lambda>(index, game). (index + 1, kenoGameStats game))
                (enumerate 0 (flattenedData jsonData))"
  have "processKenoData (Some jsonData) = Some ?out"
    by (simp add: processKenoData_def)
  moreover have "length ?out = length (flattenedData jsonData)"
    by simp
  moreover have "map fst ?out = [1..<Suc (length (flattenedData jsonData))]"
    by (rule reindex_keys)
  moreover have "map snd ?out = map kenoGameStats (flattenedData jsonData)"
    by (rule reindex_values)
  ultimately show ?thesis
    using length_flattenedData [of jsonData] stats_flattenedData [of jsonData]
      own_entries_names [of jsonData]
    by (auto simp: sorted_Object_keys set_Object_entries)
qed

text \<open>Two dates that both hold game 37.\<close>

theorem processKenoData_reindexes_witness:
  "\<not> is_index (Name ''11/02/2024'') \<and> \<not> is_index (Name ''11/03/2024'')
   \<and> processKenoData (Some [(Name ''11/02/2024'', [(37, [''5'', ''61''])]),
                            (Name ''11/03/2024'', [(37, [''7'', ''12''])])])
       = Some [(1, [''7'', ''12'']), (2, [''5'', ''61''])]"
  using processKenoData_reindexes
    [of "[(Name ''11/02/2024'', [(37, [''5'', ''61''])]),
          (Name ''11/03/2024'', [(37, [''7'', ''12''])])]"]
  by (simp add: processKenoData_def flattenedData_def own_entries_def Object_entries_def
      enumerate_eq_zip)

text \<open>
  One date with the games 1 and 2: the draws come out by ascending game number, not
  descending.
\<close>

theorem processKenoData_ascending_counterexample:
  "processKenoData (Some [(Name ''11/03/2024'', [(1, [''4'', ''8'']), (2, [''15'', ''16''])])])
     = Some [(1, [''4'', ''8'']), (2, [''15'', ''16''])]
   \<and> map kenoGameNumber
        (flattenedData [(Name ''11/03/2024'', [(1, [''4'', ''8'']), (2, [''15'', ''16''])])])
     = [1, 2]
   \<and> \<not> sorted_wrt (\<lambda>a b. b \<le> a) (map kenoGameNumber
        (flattenedData [(Name ''11/03/2024'', [(1, [''4'', ''8'']), (2, [''15'', ''16''])])]))"
  by (simp add: processKenoData_def flattenedData_def own_entries_def Object_entries_def
      enumerate_eq_zip)

section \<open>Properties of counting Maps\<close>

lemma first_occurrences_snoc:
  "first_occurrences (xs @ [x])
     = (if x \<in> set xs then first_occurrences xs else first_occurrences xs @ [x])"
  by (simp add: first_occurrences_def)

lemma set_first_occurrences: "set (first_occurrences xs) = set xs"
  by (simp add: first_occurrences_def)

lemma distinct_first_occurrences: "distinct (first_occurrences xs)"
  by (simp add: first_occurrences_def)

lemma map_of_graph: "map_of (map (\<lambda>n. (n, f n)) ks) k = (if k \<in> set ks then Some (f k) else None)"
  by (induction ks) auto

lemma update_graph_present:
  "k \<in> set ks \<Longrightarrow> distinct ks \<Longrightarrow>
   AList.update k v (map (\<lambda>n. (n, f n)) ks) = map (\<lambda>n. (n, if n = k then v else f n)) ks"
  by (induction ks) auto

lemma update_graph_absent:
  "k \<notin> set ks \<Longrightarrow> AList.update k v (map (\<lambda>n. (n, f n)) ks) = map (\<lambda>n. (n, f n)) ks @ [(k, v)]"
  by (induction ks) auto

lemma count_list_snoc: "count_list (xs @ [x]) n = count_list xs n + (if x = n then 1 else 0)"
  by (induction xs) auto

lemma fold_Map_add_weighted:
  "fold (\<lambda>n counts. Map_add n w counts) xs []
     = map (\<lambda>n. (n, w * count_list xs n)) (first_occurrences xs)"
proof (induction xs rule: rev_induct)
  case Nil
  then show ?case by (simp add: first_occurrences_def)
next
  case (snoc x xs)
  let ?L = "first_occurrences xs"
  let ?m = "map (\<lambda>n. (n, w * count_list xs n)) ?L"
  have step: "fold (\<lambda>n counts. Map_add n w counts) (xs @ [x]) [] = Map_add x w ?m"
    using snoc by simp
  show ?case
  proof (cases "x \<in> set xs")
    case True
    then have "Map_add x w ?m
        = map (\<lambda>n. (n, if n = x then w * count_list xs x + w else w * count_list xs n)) ?L"
      by (simp add: Map_add_def Map_get_def Map_set_def map_of_graph set_first_occurrences
          update_graph_present distinct_first_occurrences)
    also have "\<dots> = map (\<lambda>n. (n, w * count_list (xs @ [x]) n)) ?L"
      by (rule map_cong) (auto simp: count_list_snoc algebra_simps)
    finally show ?thesis
      using True step by (simp add: first_occurrences_snoc)
  next
    case False
    then have zero: "count_list xs x = 0" by simp
    from False have "Map_add x w ?m = ?m @ [(x, w)]"
      by (simp add: Map_add_def Map_get_def Map_set_def map_of_graph set_first_occurrences
          update_graph_absent)
    moreover have "map (\<lambda>n. (n, w * count_list (xs @ [x]) n)) ?L = ?m"
      using False by (intro map_cong) (auto simp: count_list_snoc set_first_occurrences)
    moreover have "w * count_list (xs @ [x]) x = w"
      using zero by (simp add: count_list_snoc)
    moreover have "first_occurrences (xs @ [x]) = ?L @ [x]"
      using False by (simp add: first_occurrences_snoc)
    ultimately have "map (\<lambda>n. (n, w * count_list (xs @ [x]) n)) (first_occurrences (xs @ [x]))
        = Map_add x w ?m"
      by simp
    with step show ?thesis by simp
  qed
qed

lemma fold_Map_add:
  "fold (\<lambda>n counts. Map_add n 1 counts) xs []
     = map (\<lambda>n. (n, count_list xs n)) (first_occurrences xs)"
  using fold_Map_add_weighted [of 1 xs] by simp

lemma fold_fold_concat: "fold (\<lambda>ys s. fold f ys s) xss s = fold f (concat xss) s"
  by (induction xss arbitrary: s) auto

lemma numberCounts_eq:
  "numberCounts h
     = map (\<lambda>n. (n, count_list (concat (Object_values h)) n))
         (first_occurrences (concat (Object_values h)))"
  unfolding numberCounts_def fold_fold_concat by (rule fold_Map_add)

section \<open>Properties of getNumberCounts\<close>

lemma getNumberCounts_eq:
  "getNumberCounts (Some h)
     = Some (map (\<lambda>(n, c). \<lparr>number = n, count = c\<rparr>)
               (sort_key (\<lambda>p. - int (snd p)) (numberCounts h)))"
  by (simp add: getNumberCounts_def Array_sort_descending)

lemma sorted_wrt_descending:
  "sorted_wrt (\<lambda>a b. snd b \<le> snd a) (sort_key (\<lambda>p. - int (snd p)) (xs :: ('a \<times> nat) list))"
proof -
  have "sorted (map (\<lambda>p. - int (snd p)) (sort_key (\<lambda>p. - int (snd p)) xs))"
    by (rule sorted_sort_key)
  then show ?thesis
    by (simp add: sorted_map)
qed

text \<open>
  C6, as the code has it. The counts come out by descending count; numbers with the same
  count keep the order in which they first occur in the history (the games by ascending
  game number, each game's numbers as listed), since the Map enumerates its keys in
  insertion order and the sort is stable. Each count is the number of occurrences.
\<close>

theorem getNumberCounts_order:
  "\<exists>stats. getNumberCounts (Some h) = Some stats
     \<and> sorted_wrt (\<lambda>a b. count b \<le> count a) stats
     \<and> (\<forall>e \<in> set stats. count e = count_list (concat (Object_values h)) (number e))
     \<and> (\<forall>c. map number (filter (\<lambda>e. count e = c) stats)
             = filter (\<lambda>n. count_list (concat (Object_values h)) n = c)
                 (first_occurrences (concat (Object_values h))))"
proof -
  let ?all = "concat (Object_values h)"
  let ?mk = "\<lambda>(n, c). \<lparr>number = n, count = c\<rparr>"
  let ?sorted = "sort_key (\<lambda>p. - int (snd p)) (numberCounts h)"
  have eq: "getNumberCounts (Some h) = Some (map ?mk ?sorted)"
    by (rule getNumberCounts_eq)
  have s: "sorted_wrt (\<lambda>a b. count b \<le> count a) (map ?mk ?sorted)"
    using sorted_wrt_descending [of "numberCounts h"]
    by (simp add: sorted_wrt_map case_prod_unfold)
  have c: "\<forall>e \<in> set (map ?mk ?sorted). count e = count_list ?all (number e)"
    by (auto simp: numberCounts_eq)
  have t: "map number (filter (\<lambda>e. count e = c) (map ?mk ?sorted))
             = filter (\<lambda>n. count_list ?all n = c) (first_occurrences ?all)" for c
  proof -
    have "filter (\<lambda>e. count e = c) (map ?mk ?sorted)
        = map ?mk (filter (\<lambda>p. - int (snd p) = - int c) ?sorted)"
      by (simp add: filter_map comp_def case_prod_unfold)
    also have "\<dots> = map ?mk (filter (\<lambda>p. - int (snd p) = - int c) (numberCounts h))"
      by (simp only: sort_key_stable)
    finally show ?thesis
      by (simp add: numberCounts_eq filter_map comp_def)
  qed
  from eq s c t show ?thesis by blast
qed

theorem getNumberCounts_order_witness:
  "getNumberCounts (Some [(2, [1, 2, 3]), (1, [2, 3, 4])])
     = Some [\<lparr>number = 2, count = 2\<rparr>, \<lparr>number = 3, count = 2\<rparr>,
             \<lparr>number = 4, count = 1\<rparr>, \<lparr>number = 1, count = 1\<rparr>]
   \<and> first_occurrences (concat (Object_values [(2, [1, 2, 3]), (1, [2, 3, 4 :: nat])]))
     = [2, 3, 4, 1]"
  using getNumberCounts_order [of "[(2, [1, 2, 3]), (1, [2, 3, 4])]"]
  by (simp add: getNumberCounts_eq numberCounts_eq Object_values_def Object_entries_def
      first_occurrences_def)

text \<open>One game listing 5 before 3: both occur once, and 5 comes first.\<close>

theorem getNumberCounts_ties_counterexample:
  "getNumberCounts (Some [(1, [5, 3])]) = Some [\<lparr>number = 5, count = 1\<rparr>, \<lparr>number = 3, count = 1\<rparr>]
   \<and> \<not> sorted_wrt (\<lambda>a b. count b < count a \<or> (count a = count b \<and> number a < number b))
         [\<lparr>number = 5, count = 1\<rparr>, \<lparr>number = 3, count = 1\<rparr>]"
  by (simp add: getNumberCounts_eq numberCounts_eq Object_values_def Object_entries_def
      first_occurrences_def)

section \<open>Properties of analyzeNumberCombinations\<close>











section \<open>Properties of the gap scan\<close>

lemma record_gap_conv:
  "record_gap n (ga, cg)
     = (AList.update n ((case map_of ga n of None \<Rightarrow> [] | Some gaps \<Rightarrow> gaps) @ [map_of cg n]) ga,
        AList.update n 0 cg)"
  by (simp add: record_gap_def Map_get_def Map_set_def)

lemma fold_record_gap_keys:
  "fst ` set (fst (fold record_gap ns st)) = fst ` set (fst st) \<union> set ns"
proof (induction ns arbitrary: st)
  case Nil
  then show ?case by simp
next
  case (Cons x xs)
  obtain ga cg where st: "st = (ga, cg)" by (cases st)
  show ?case
    by (simp add: st Cons record_gap_conv dom_update)
qed






lemma scan_games_snoc:
  "scan_games (games @ [(key, ns)]) = scan_game ns (scan_games games)"
  by (simp add: scan_games_def)

lemma scan_game_keys:
  "fst ` set (fst (scan_game ns st)) = fst ` set (fst st) \<union> set ns"
  by (cases st) (simp add: scan_game_def fold_record_gap_keys)


lemma scan_games_keys:
  "fst ` set (fst (scan_games games)) = \<Union> (set ` snd ` set games)"
proof (induction games rule: rev_induct)
  case Nil
  then show ?case by (simp add: scan_games_def)
next
  case (snoc g games)
  obtain key ns where g: "g = (key, ns)" by (cases g)
  show ?case
    by (simp add: g scan_games_snoc scan_game_keys snoc Un_commute)
qed






lemma set_games_descending: "set (games_descending h) = set h"
  by (simp add: games_descending_def set_Array_sort set_Object_entries)




lemma analyzeNumberGaps_eq:
  "scan_games (games_descending h) = (ga, cg) \<Longrightarrow>
   analyzeNumberGaps (Some h)
     = Some (Array_sort (\<lambda>a b. jsub (gapRatio b) (gapRatio a)) (map (gap_record cg) ga))"
  by (simp add: analyzeNumberGaps_def)















section \<open>Properties of generatePredictions\<close>

lemma Map_add_nonempty: "Map_add n w s \<noteq> []"
  by (simp add: Map_add_def Map_set_def)

lemma fold_Map_add_Nil:
  "fold (\<lambda>n s. Map_add n w s) ns s = [] \<longleftrightarrow> ns = [] \<and> s = []"
  by (induction ns arbitrary: s) (simp_all add: Map_add_nonempty)

lemma fold_games_Map_add_Nil:
  "fold (\<lambda>(key, numbers) s. fold (\<lambda>n s. Map_add n w s) numbers s) games s = []
     \<longleftrightarrow> (\<forall>g \<in> set games. snd g = []) \<and> s = []"
proof (induction games arbitrary: s)
  case Nil
  then show ?case by simp
next
  case (Cons g games)
  obtain key ns where g: "g = (key, ns)" by (cases g)
  show ?case
    by (auto simp: g Cons fold_Map_add_Nil)
qed

lemma analyzeNumberGaps_Nil:
  "analyzeNumberGaps (Some h) = Some [] \<longleftrightarrow> (\<forall>g \<in> set h. snd g = [])"
proof -
  obtain ga cg where S: "scan_games (games_descending h) = (ga, cg)"
    by (cases "scan_games (games_descending h)")
  have "fst ` set ga = \<Union> (set ` snd ` set h)"
    using scan_games_keys [of "games_descending h"] by (simp add: S set_games_descending)
  moreover have "ga = [] \<longleftrightarrow> fst ` set ga = {}" by simp
  moreover have "\<Union> (set ` snd ` set h) = {} \<longleftrightarrow> (\<forall>g \<in> set h. snd g = [])" by auto
  ultimately have "ga = [] \<longleftrightarrow> (\<forall>g \<in> set h. snd g = [])"
    by (simp only:)
  then show ?thesis
    by (simp add: analyzeNumberGaps_eq [OF S] Array_sort_Nil_iff)
qed

lemma analyzeHotColdPatterns_Nil:
  "analyzeHotColdPatterns (Some h) w = Some [] \<longleftrightarrow> (\<forall>g \<in> set h. snd g = [])"
proof -
  let ?games = "games_descending h"
  have "set (take 20 ?games) \<union> set (drop 20 ?games) = set h"
    using set_append [of "take 20 ?games" "drop 20 ?games"]
    by (simp only: append_take_drop_id set_games_descending)
  then have "(\<forall>g \<in> set (drop 20 ?games). snd g = []) \<and> (\<forall>g \<in> set (take 20 ?games). snd g = [])
      \<longleftrightarrow> (\<forall>g \<in> set h. snd g = [])"
    by blast
  then show ?thesis
    by (simp add: analyzeHotColdPatterns_def Let_def Array_sort_Nil_iff fold_games_Map_add_Nil)
qed

lemma analyzeRecentTrends_Nil:
  assumes "\<forall>g \<in> set h. snd g = []"
  shows "analyzeRecentTrends (Some h) w = Some []"
proof -
  have "set (take w (games_descending h)) \<subseteq> set h"
    using set_take_subset [of w "games_descending h"] by (simp add: set_games_descending)
  with assms have c: "concat (map snd (take w (games_descending h))) = []"
    by auto
  show ?thesis
    by (simp add: analyzeRecentTrends_def Let_def Array_sort_def c)
qed

lemma generatePredictions_Nil:
  assumes "analyzeRecentTrends (Some h) 10 = Some []" "analyzeNumberGaps (Some h) = Some []"
    "analyzeHotColdPatterns (Some h) 2 = Some []"
  shows "generatePredictions (Some h) = Inr []"
  using assms
  by (simp add: generatePredictions_def combinedScores_def normalizeScores_def add_scores_def
      Array_sort_def)

lemma generatePredictions_returns: "\<exists>ps. generatePredictions (Some h) = Inr ps"
proof -
  obtain ts where "analyzeRecentTrends (Some h) 10 = Some ts"
    by (simp add: analyzeRecentTrends_def Let_def)
  moreover obtain gs where "analyzeNumberGaps (Some h) = Some gs"
    by (cases "scan_games (games_descending h)") (simp add: analyzeNumberGaps_def)
  moreover obtain hs where "analyzeHotColdPatterns (Some h) 2 = Some hs"
    by (simp add: analyzeHotColdPatterns_def Let_def)
  ultimately show ?thesis
    by (simp add: generatePredictions_def)
qed

text \<open>
  C7, as the code has it. For a history that is present, \<open>generatePredictions\<close> never throws.
  If the gap set or the hot/cold set is empty, no draw holds a number, all three sets are
  empty and the prediction list is empty. There is no short-circuit: an empty recent-trend
  set alone adds no term and leaves the other two sets' scores in the result.
\<close>

theorem generatePredictions_empty_sets:
  "(\<exists>ps. generatePredictions (Some h) = Inr ps)
   \<and> (analyzeNumberGaps (Some h) = Some [] \<or> analyzeHotColdPatterns (Some h) 2 = Some []
        \<longrightarrow> analyzeRecentTrends (Some h) 10 = Some []
          \<and> analyzeNumberGaps (Some h) = Some []
          \<and> analyzeHotColdPatterns (Some h) 2 = Some []
          \<and> generatePredictions (Some h) = Inr [])"
proof -
  have "analyzeRecentTrends (Some h) 10 = Some []
          \<and> analyzeNumberGaps (Some h) = Some []
          \<and> analyzeHotColdPatterns (Some h) 2 = Some []
          \<and> generatePredictions (Some h) = Inr []"
    if "analyzeNumberGaps (Some h) = Some [] \<or> analyzeHotColdPatterns (Some h) 2 = Some []"
  proof -
    from that have none: "\<forall>g \<in> set h. snd g = []"
      by (auto simp: analyzeNumberGaps_Nil analyzeHotColdPatterns_Nil)
    then have "analyzeRecentTrends (Some h) 10 = Some []"
      "analyzeNumberGaps (Some h) = Some []" "analyzeHotColdPatterns (Some h) 2 = Some []"
      by (simp_all add: analyzeRecentTrends_Nil analyzeNumberGaps_Nil analyzeHotColdPatterns_Nil)
    then show ?thesis by (simp add: generatePredictions_Nil)
  qed
  with generatePredictions_returns [of h] show ?thesis by blast
qed

theorem generatePredictions_empty_sets_witness:
  "analyzeNumberGaps (Some [(1, []), (2, [])]) = Some []
   \<and> generatePredictions (Some [(1, []), (2, [])]) = Inr []"
proof -
  have e: "analyzeNumberGaps (Some [(1, []), (2, [])]) = Some []" by code_simp
  with generatePredictions_empty_sets [of "[(1, []), (2, [])]"] show ?thesis by simp
qed

text \<open>
  Twelve games of which the ten most recent hold no number: the recent-trend set is empty,
  the prediction list is not.
\<close>

theorem generatePredictions_short_circuit_counterexample:
  "analyzeRecentTrends
     (Some [(1, [5]), (2, [5, 6]), (3, []), (4, []), (5, []), (6, []), (7, []), (8, []),
            (9, []), (10, []), (11, []), (12, [])]) 10 = Some []
   \<and> generatePredictions
       (Some [(1, [5]), (2, [5, 6]), (3, []), (4, []), (5, []), (6, []), (7, []), (8, []),
              (9, []), (10, []), (11, []), (12, [])])
     = Inr [\<lparr>pred_number = 6, score = Fin (9 / 20), confidence = Fin 45, recentTrend = Fin 0,
              gapAnalysis = Fin (1 / 11), hotColdScore = Fin 2\<rparr>,
            \<lparr>pred_number = 5, score = Fin (3 / 10), confidence = Fin 30, recentTrend = Fin 0,
              gapAnalysis = Fin 0, hotColdScore = Fin 4\<rparr>]"
  by code_simp




















end
